theory Spec2Isabelle
  imports Complex_Main "HOL-Library.Log_Nat"
begin

section \<open>Pagination in the trustar client: pages and page generators\<close>

text \<open>
  The development embeds \<^verbatim>\<open>trustar/models/numbered_page.py\<close>,
  \<^verbatim>\<open>trustar/models/cursor_page.py\<close> and the window policy
  \<^verbatim>\<open>get_next_to_time\<close> of \<^verbatim>\<open>trustar/report_client.py\<close>.
  Python exceptions are values (\<open>Inl\<close> of a sum), generators are explicit
  iterators (a frame and a \<open>next\<close> operation), and a fetch function threads the
  state of the server it talks to.
\<close>

subsection \<open>Python values\<close>

text \<open>An exception is its class name and its message.\<close>

datatype exn = Exn (exn_class: string) (exn_message: string)

text \<open>
  What \<^verbatim>\<open>resp.json()\<close> holds. \<open>JNull\<close> is Python's \<^verbatim>\<open>None\<close>. A JSON
  object is an association list, read with \<open>map_of\<close> as \<^verbatim>\<open>dict.get\<close> reads it.
  Numbers are integers: the pagination code reads counts, timestamps, flags and strings.
\<close>

datatype json =
    JNull
  | JBool bool
  | JInt int
  | JStr string
  | JList "json list"
  | JObject "(string \<times> json) list"

text \<open>Python's truth value of such a value (what \<^verbatim>\<open>not x\<close> negates).\<close>

fun truthy :: "json \<Rightarrow> bool" where
  "truthy JNull = False"
| "truthy (JBool b) = b"
| "truthy (JInt n) = (n \<noteq> 0)"
| "truthy (JStr s) = (s \<noteq> [])"
| "truthy (JList xs) = (xs \<noteq> [])"
| "truthy (JObject kvs) = (kvs \<noteq> [])"

fun type_name :: "json \<Rightarrow> string" where
  "type_name JNull = ''NoneType''"
| "type_name (JBool b) = ''bool''"
| "type_name (JInt n) = ''int''"
| "type_name (JStr s) = ''str''"
| "type_name (JList xs) = ''list''"
| "type_name (JObject kvs) = ''dict''"

text \<open>
  An item of a page is either a plain value as it came off the wire, or a model object
  (an instance of a class with \<^verbatim>\<open>to_dict\<close>, such as \<^verbatim>\<open>Report\<close>). The
  method \<^verbatim>\<open>to_dict(remove_nones)\<close> of the model objects is a parameter
  \<open>td\<close> of the functions below that call it.
\<close>

datatype 'o item = Plain json | Model 'o


definition no_attribute :: "json \<Rightarrow> string \<Rightarrow> exn" where
  "no_attribute j a =
     Exn ''AttributeError''
       (CHR 0x27 # type_name j @ CHR 0x27 # '' object has no attribute '' @ CHR 0x27 # a @ [CHR 0x27])"

text \<open>A list comprehension whose body may raise: the first exception ends it.\<close>

fun comprehension :: "('a \<Rightarrow> exn + 'b) \<Rightarrow> 'a list \<Rightarrow> exn + 'b list" where
  "comprehension f [] = Inr []"
| "comprehension f (x # xs) =
     (case f x of
        Inl e \<Rightarrow> Inl e
      | Inr y \<Rightarrow> (case comprehension f xs of Inl e \<Rightarrow> Inl e | Inr ys \<Rightarrow> Inr (y # ys)))"

text \<open>
  The class handed to \<^verbatim>\<open>from_dict\<close> as \<^verbatim>\<open>content_type\<close>: its name, whether
  \<^verbatim>\<open>issubclass(content_type, ModelBase)\<close> holds, and its \<^verbatim>\<open>from_dict\<close>.
\<close>

datatype 'o pyclass =
  PyClass (cls_name: string) (subclass_of_ModelBase: bool) (cls_from_dict: "'o item \<Rightarrow> exn + 'o")

text \<open>The \<^verbatim>\<open>from_dict\<close> of a class that has none: looking it up raises.\<close>

definition no_from_dict :: "'o item \<Rightarrow> exn + 'o" where
  "no_from_dict x = Inl (Exn ''AttributeError'' (''type object has no attribute 'from_dict'' @ [CHR 0x27]))"

subsection \<open>Python floats\<close>

text \<open>
  A float is an IEEE double: a finite value \<open>m * 2 ^ q\<close> with \<open>\<bar>m\<bar> < 2 ^ 53\<close>,
  \<open>- 1074 \<le> q\<close> and magnitude below \<open>2 ^ 1024\<close>, kept as the rational it is, or an
  infinity. No NaN arises from the operations below.
\<close>

datatype pyfloat = Finite rat | PosInf | NegInf

text \<open>The exponent \<open>e\<close> of a rational \<open>x \<noteq> 0\<close>: \<open>2 ^ e \<le> \<bar>x\<bar> < 2 ^ (e + 1)\<close>.\<close>

definition binary_exponent :: "rat \<Rightarrow> int" where
  "binary_exponent x =
     (case quotient_of \<bar>x\<bar> of
        (a, b) \<Rightarrow> (let d = bitlen a - bitlen b in if 2 powi d \<le> \<bar>x\<bar> then d else d - 1))"

text \<open>The nearest integer, a tie going to the even one.\<close>

definition round_half_even :: "rat \<Rightarrow> int" where
  "round_half_even y =
     (let f = \<lfloor>y\<rfloor>; r = y - of_int f
      in if r < 1 / 2 then f else if 1 / 2 < r then f + 1 else if even f then f else f + 1)"

text \<open>
  Rounding to nearest, ties to even, with 53 significant bits and the least exponent of
  the doubles (below \<open>2 ^ (- 1022)\<close> the spacing stays \<open>2 ^ (- 1074)\<close>). The exponent is
  not bounded above here: the callers test the result against \<open>2 ^ 1024\<close>.
\<close>

definition nearest_double :: "rat \<Rightarrow> rat" where
  "nearest_double x =
     (if x = 0 then 0
      else (let q = max (binary_exponent x) (- 1022) - 52
            in of_int (round_half_even (x / 2 powi q)) * 2 powi q))"

text \<open>\<^verbatim>\<open>float(n)\<close> of an integer: the nearest double, or an \<^verbatim>\<open>OverflowError\<close>.\<close>

definition py_float :: "int \<Rightarrow> exn + rat" where
  "py_float n =
     (let r = nearest_double (of_int n)
      in if 2 ^ 1024 \<le> \<bar>r\<bar> then Inl (Exn ''OverflowError'' ''int too large to convert to float'')
         else Inr r)"

text \<open>\<^verbatim>\<open>a / b\<close> of two finite floats: the nearest double of the quotient.\<close>

definition float_truediv :: "rat \<Rightarrow> rat \<Rightarrow> exn + pyfloat" where
  "float_truediv a b =
     (if b = 0 then Inl (Exn ''ZeroDivisionError'' ''float division by zero'')
      else (let r = nearest_double (a / b)
            in if 2 ^ 1024 \<le> r then Inr PosInf
               else if r \<le> - (2 ^ 1024) then Inr NegInf
               else Inr (Finite r)))"

text \<open>
  \<^verbatim>\<open>math.ceil\<close>: the least integer not below a finite float. It raises on an
  infinity, which no quotient of two converted integers is.
\<close>

definition math_ceil :: "pyfloat \<Rightarrow> exn + int" where
  "math_ceil x =
     (case x of
        Finite r \<Rightarrow> Inr \<lceil>r\<rceil>
      | PosInf \<Rightarrow> Inl (Exn ''OverflowError'' ''cannot convert float infinity to integer'')
      | NegInf \<Rightarrow> Inl (Exn ''OverflowError'' ''cannot convert float infinity to integer''))"

subsection \<open>Page and NumberedPage\<close>

record 'o Page =
  items :: "'o item list"

text \<open>
  Modelled from the spec: \<^verbatim>\<open>Page.__init__\<close> (\<^verbatim>\<open>models/page.py\<close> is not among
  the sources). The spec's data model: ``\<^verbatim>\<open>items\<close> is never null after construction
  (empty sequence allowed)''.
\<close>

definition Page_init :: "'o item list option \<Rightarrow> 'o item list" where
  "Page_init its = (case its of None \<Rightarrow> [] | Some xs \<Rightarrow> xs)"

text \<open>
  The fields of a \<^verbatim>\<open>NumberedPage\<close> have the types its docstring gives them, each
  \<open>None\<close> when unset.
\<close>

record 'o NumberedPage = "'o Page" +
  page_number :: "int option"
  page_size :: "int option"
  total_elements :: "int option"
  has_next :: "bool option"

definition NumberedPage_init ::
  "'o item list option \<Rightarrow> int option \<Rightarrow> int option \<Rightarrow> int option \<Rightarrow> bool option \<Rightarrow> 'o NumberedPage"
where
  "NumberedPage_init its pn ps te hn =
     \<lparr>items = Page_init its, page_number = pn, page_size = ps, total_elements = te, has_next = hn\<rparr>"

text \<open>
  \<^verbatim>\<open>math.ceil(float(self.total_elements) / float(self.page_size))\<close>, in the order
  Python evaluates it: both conversions, the division, the ceiling. Each step may raise.
\<close>

definition get_total_pages :: "'o NumberedPage \<Rightarrow> exn + int option" where
  "get_total_pages self =
     (case (total_elements self, page_size self) of
        (None, _) \<Rightarrow> Inr None
      | (_, None) \<Rightarrow> Inr None
      | (Some te, Some ps) \<Rightarrow>
          (case py_float te of
             Inl e \<Rightarrow> Inl e
           | Inr a \<Rightarrow>
               (case py_float ps of
                  Inl e \<Rightarrow> Inl e
                | Inr b \<Rightarrow>
                    (case float_truediv a b of
                       Inl e \<Rightarrow> Inl e
                     | Inr q \<Rightarrow>
                         (case math_ceil q of
                            Inl e \<Rightarrow> Inl e
                          | Inr total_pages \<Rightarrow> Inr (Some total_pages))))))"

text \<open>The result \<open>None\<close> is the bare \<^verbatim>\<open>return\<close>: no answer can be computed.\<close>

definition has_more_pages :: "'o NumberedPage \<Rightarrow> exn + bool option" where
  "has_more_pages self =
     (case has_next self of
        Some b \<Rightarrow> Inr (Some b)
      | None \<Rightarrow>
          (case get_total_pages self of
             Inl e \<Rightarrow> Inl e
           | Inr total_pages \<Rightarrow>
               (case (page_number self, total_pages) of
                  (None, _) \<Rightarrow> Inr None
                | (_, None) \<Rightarrow> Inr None
                | (Some pn, Some tp) \<Rightarrow> Inr (Some (pn + 1 < tp)))))"

text \<open>The truth value of what \<open>has_more_pages\<close> returns, as \<^verbatim>\<open>while more_pages\<close> tests it.\<close>

fun truthy_opt :: "bool option \<Rightarrow> bool" where
  "truthy_opt None = False"
| "truthy_opt (Some b) = b"

text \<open>
  The dictionary form of a page: one field per key of the wire format, \<open>None\<close> where
  \<^verbatim>\<open>dict.get\<close> returns \<^verbatim>\<open>None\<close> (key absent or null).
\<close>

record 'o Page_dict =
  items_key :: "'o item list option"

record 'o NumberedPage_dict = "'o Page_dict" +
  pageNumber :: "int option"
  pageSize :: "int option"
  totalElements :: "int option"
  hasNext :: "bool option"

definition content_type_error :: exn where
  "content_type_error = Exn ''ValueError'' '''content_type' must be a subclass of ModelBase.''"

definition NumberedPage_from_dict ::
  "'o NumberedPage_dict \<Rightarrow> 'o pyclass option \<Rightarrow> exn + 'o NumberedPage"
where
  "NumberedPage_from_dict page content_type =
     (let result = NumberedPage_init (items_key page) (pageNumber page) (pageSize page)
                     (totalElements page) (hasNext page)
      in case content_type of
           None \<Rightarrow> Inr result
         | Some c \<Rightarrow>
             if \<not> subclass_of_ModelBase c then Inl content_type_error
             else (case comprehension (cls_from_dict c) (items result) of
                     Inl e \<Rightarrow> Inl e
                   | Inr objs \<Rightarrow> Inr (result\<lparr>items := map Model objs\<rparr>)))"



subsection \<open>Generators as iterators\<close>

text \<open>
  One call of \<^verbatim>\<open>next()\<close> on a generator yields a value, ends the iteration, or
  lets an exception through. \<open>pull nxt k g\<close> is what \<open>k\<close> successive calls give.
\<close>

datatype 'a event = Yield 'a | StopIteration | Raise exn

fun pull :: "('g \<Rightarrow> 'a event \<times> 'g) \<Rightarrow> nat \<Rightarrow> 'g \<Rightarrow> 'a event list" where
  "pull nxt 0 g = []"
| "pull nxt (Suc k) g = (case nxt g of (ev, g') \<Rightarrow> ev # pull nxt k g')"

text \<open>
  The frame of \<^verbatim>\<open>NumberedPage.get_page_generator\<close>: not started (with
  \<^verbatim>\<open>page_number = start_page\<close>), suspended at \<^verbatim>\<open>yield page\<close>, or finished.
  \<^verbatim>\<open>func\<close> takes \<^verbatim>\<open>page_number\<close>, \<^verbatim>\<open>page_size\<close> and the server's state.
\<close>

datatype 'o np_frame = NP_Start int | NP_Yielded int "'o NumberedPage" | NP_Done

type_synonym ('s, 'o) np_func = "int \<Rightarrow> int option \<Rightarrow> 's \<Rightarrow> (exn + 'o NumberedPage) \<times> 's"

text \<open>The loop body up to the \<^verbatim>\<open>yield\<close>.\<close>

definition np_fetch ::
  "('s, 'o) np_func \<Rightarrow> int option \<Rightarrow> int \<Rightarrow> 's \<Rightarrow> 'o NumberedPage event \<times> 'o np_frame \<times> 's"
where
  "np_fetch func psz n s =
     (case func n psz s of
        (Inl e, s') \<Rightarrow> (Raise e, NP_Done, s')
      | (Inr page, s') \<Rightarrow> (Yield page, NP_Yielded n page, s'))"

fun get_page_generator_next ::
  "('s, 'o) np_func \<Rightarrow> int option \<Rightarrow> 'o np_frame \<times> 's \<Rightarrow> 'o NumberedPage event \<times> 'o np_frame \<times> 's"
where
  "get_page_generator_next func psz (NP_Start n, s) = np_fetch func psz n s"
| "get_page_generator_next func psz (NP_Yielded n page, s) =
     (case has_more_pages page of
        Inl e \<Rightarrow> (Raise e, NP_Done, s)
      | Inr more_pages \<Rightarrow>
          if truthy_opt more_pages then np_fetch func psz (n + 1) s
          else (StopIteration, NP_Done, s))"
| "get_page_generator_next func psz (NP_Done, s) = (StopIteration, NP_Done, s)"

definition get_page_generator :: "int \<Rightarrow> 'o np_frame" where
  "get_page_generator start_page = NP_Start start_page"

subsection \<open>CursorPage\<close>

text \<open>
  \<^verbatim>\<open>response_metadata\<close> is the JSON object of the response, kept as it came (or
  \<^verbatim>\<open>None\<close>): the class puts no type on the value under \<^verbatim>\<open>nextCursor\<close>.
\<close>

record 'o CursorPage = "'o Page" +
  response_metadata :: "(string \<times> json) list option"

definition CursorPage_init ::
  "'o item list option \<Rightarrow> (string \<times> json) list option \<Rightarrow> 'o CursorPage"
where
  "CursorPage_init its rm = \<lparr>items = Page_init its, response_metadata = rm\<rparr>"

record 'o CursorPage_dict = "'o Page_dict" +
  responseMetadata :: "(string \<times> json) list option"

definition CursorPage_from_dict ::
  "'o CursorPage_dict \<Rightarrow> 'o pyclass option \<Rightarrow> exn + 'o CursorPage"
where
  "CursorPage_from_dict page content_type =
     (let result = CursorPage_init (items_key page) (responseMetadata page)
      in case content_type of
           None \<Rightarrow> Inr result
         | Some c \<Rightarrow>
             if \<not> subclass_of_ModelBase c then Inl content_type_error
             else (case comprehension (cls_from_dict c) (items result) of
                     Inl e \<Rightarrow> Inl e
                   | Inr objs \<Rightarrow> Inr (result\<lparr>items := map Model objs\<rparr>)))"

text \<open>\<^verbatim>\<open>n.to_dict(remove_nones)\<close>: an item without the method raises.\<close>

definition call_to_dict :: "('o \<Rightarrow> bool \<Rightarrow> json) \<Rightarrow> bool \<Rightarrow> 'o item \<Rightarrow> exn + 'o item" where
  "call_to_dict td remove_nones it =
     (case it of
        Model obj \<Rightarrow> Inr (Plain (td obj remove_nones))
      | Plain j \<Rightarrow> Inl (no_attribute j ''to_dict''))"

definition CursorPage_to_dict ::
  "('o \<Rightarrow> bool \<Rightarrow> json) \<Rightarrow> 'o CursorPage \<Rightarrow> bool \<Rightarrow> exn + 'o CursorPage_dict"
where
  "CursorPage_to_dict td self remove_nones =
     (case comprehension (call_to_dict td remove_nones) (items self) of
        Inl e \<Rightarrow> Inl e
      | Inr ds \<Rightarrow> Inr \<lparr>items_key = Some ds, responseMetadata = response_metadata self\<rparr>)"

text \<open>
  \<^verbatim>\<open>get_next_cursor\<close>. The dictionary of a page has two keys, so
  \<^verbatim>\<open>if page_dict\<close> holds; \<^verbatim>\<open>if response_metadata\<close> fails on \<^verbatim>\<open>None\<close> and on
  the empty dictionary, and the cursor is then \<^verbatim>\<open>str()\<close>.
\<close>

definition get_next_cursor :: "('o \<Rightarrow> bool \<Rightarrow> json) \<Rightarrow> 'o CursorPage \<Rightarrow> exn + json" where
  "get_next_cursor td page =
     (case CursorPage_to_dict td page False of
        Inl e \<Rightarrow> Inl e
      | Inr page_dict \<Rightarrow>
          (case responseMetadata page_dict of
             None \<Rightarrow> Inr (JStr [])
           | Some [] \<Rightarrow> Inr (JStr [])
           | Some (kv # kvs) \<Rightarrow>
               (case map_of (kv # kvs) ''nextCursor'' of
                  None \<Rightarrow> Inr JNull
                | Some c \<Rightarrow> Inr c)))"

text \<open>
  The frame of \<^verbatim>\<open>get_cursor_based_page_generator\<close> holds \<^verbatim>\<open>cursor\<close> and
  \<^verbatim>\<open>finished\<close>, both at the start and at the \<^verbatim>\<open>yield\<close>.
\<close>

datatype cp_frame = CP_Running json bool | CP_Done

type_synonym ('s, 'o) cp_func = "json \<Rightarrow> 's \<Rightarrow> (exn + 'o CursorPage) \<times> 's"

fun get_cursor_based_page_generator_next ::
  "('o \<Rightarrow> bool \<Rightarrow> json) \<Rightarrow> ('s, 'o) cp_func \<Rightarrow> cp_frame \<times> 's \<Rightarrow> 'o CursorPage event \<times> cp_frame \<times> 's"
where
  "get_cursor_based_page_generator_next td get_page (CP_Running cursor finished, s) =
     (if finished then (StopIteration, CP_Done, s)
      else (case get_page cursor s of
              (Inl e, s') \<Rightarrow> (Raise e, CP_Done, s')
            | (Inr page, s') \<Rightarrow>
                (case get_next_cursor td page of
                   Inl e \<Rightarrow> (Raise e, CP_Done, s')
                 | Inr cursor' \<Rightarrow> (Yield page, CP_Running cursor' (\<not> truthy cursor'), s'))))"
| "get_cursor_based_page_generator_next td get_page (CP_Done, s) = (StopIteration, CP_Done, s)"

definition get_cursor_based_page_generator :: "json \<Rightarrow> cp_frame" where
  "get_cursor_based_page_generator cursor = CP_Running cursor False"

subsection \<open>Reports and the window policy\<close>

record Report =
  id' :: "string option"
  title :: "string option"
  body :: "string option"
  time_began :: "int option"
  external_id :: "string option"
  external_url :: "string option"
  is_enclave :: bool
  enclave_ids :: "string list option"
  created :: "int option"
  updated :: "int option"

text \<open>
  Modelled from the spec: the constant \<^verbatim>\<open>DAY\<close> of \<^verbatim>\<open>trustar/utils.py\<close>, which is
  not among the sources: one day, in the milliseconds that timestamps are counted in.
\<close>

definition DAY :: int where
  "DAY = 24 * 60 * 60 * 1000"

text \<open>
  \<^verbatim>\<open>get_next_to_time\<close> of \<^verbatim>\<open>_get_reports_page_generator\<close>. \<^verbatim>\<open>result.items[-1]\<close>
  is the last item; an item without \<^verbatim>\<open>updated\<close> and a report whose
  \<^verbatim>\<open>updated\<close> is \<^verbatim>\<open>None\<close> raise.
\<close>

definition get_next_to_time :: "Report NumberedPage \<Rightarrow> int \<Rightarrow> exn + int" where
  "get_next_to_time result to_time =
     (if length (items result) > 0 then
        (case last (items result) of
           Plain j \<Rightarrow> Inl (no_attribute j ''updated'')
         | Model r \<Rightarrow>
             (case updated r of
                None \<Rightarrow> Inl (Exn ''TypeError'' (''unsupported operand type(s) for -: 'NoneType' and 'int'' @ [CHR 0x27]))
              | Some u \<Rightarrow> Inr (u - 1)))
      else Inr (to_time - DAY))"

text \<open>The \<^verbatim>\<open>updated\<close> timestamps of the reports of a page, in page order.\<close>

fun updated_of :: "Report item list \<Rightarrow> int list" where
  "updated_of [] = []"
| "updated_of (Plain j # xs) = updated_of xs"
| "updated_of (Model r # xs) = (case updated r of None \<Rightarrow> updated_of xs | Some u \<Rightarrow> u # updated_of xs)"



text \<open>Whether every item of a list is a report that carries an \<^verbatim>\<open>updated\<close> timestamp.\<close>

fun all_timestamped :: "Report item list \<Rightarrow> bool" where
  "all_timestamped [] = True"
| "all_timestamped (Plain j # xs) = False"
| "all_timestamped (Model r # xs) = (case updated r of None \<Rightarrow> False | Some u \<Rightarrow> all_timestamped xs)"

subsection \<open>Concrete pages and fetch functions\<close>

text \<open>\<^verbatim>\<open>Report(updated=u)\<close>: every other argument at its default.\<close>

definition Report_updated :: "int \<Rightarrow> Report" where
  "Report_updated u =
     \<lparr>id' = None, title = None, body = None, time_began = None, external_id = None,
      external_url = None, is_enclave = True, enclave_ids = None, created = None,
      updated = Some u\<rparr>"

text \<open>A page of two reports, the older one first.\<close>

definition older_first_page :: "Report NumberedPage" where
  "older_first_page =
     NumberedPage_init (Some [Model (Report_updated 4000), Model (Report_updated 4500)])
       None None None None"

text \<open>A server with \<open>te\<close> elements in pages of \<open>ps\<close>, whose pages carry no \<^verbatim>\<open>hasNext\<close>.\<close>

definition fixed_dataset :: "int \<Rightarrow> int \<Rightarrow> (unit, unit) np_func" where
  "fixed_dataset te ps n psz s =
     (Inr (NumberedPage_init None (Some n) (Some ps) (Some te) None), s)"

text \<open>A server that says \<^verbatim>\<open>hasNext = false\<close> on every page of a set of 100 elements.\<close>

definition no_next_dataset :: "(unit, unit) np_func" where
  "no_next_dataset n psz s =
     (Inr (NumberedPage_init None (Some n) (Some 10) (Some 100) (Some False)), s)"

text \<open>Model objects without content, and their \<^verbatim>\<open>to_dict\<close>.\<close>

definition unit_to_dict :: "unit \<Rightarrow> bool \<Rightarrow> json" where
  "unit_to_dict obj remove_nones = JObject []"

definition cursor_page_with :: "unit item list \<Rightarrow> json \<Rightarrow> unit CursorPage" where
  "cursor_page_with its c = CursorPage_init (Some its) (Some [(''nextCursor'', c)])"

text \<open>A server whose pages all carry the same item and the same cursor.\<close>

definition constant_cursor :: "unit item \<Rightarrow> json \<Rightarrow> (unit, unit) cp_func" where
  "constant_cursor it c cursor s = (Inr (cursor_page_with [it] c), s)"



text \<open>The built-in class \<^verbatim>\<open>dict\<close>: not a model class.\<close>

definition dict_class :: "unit pyclass" where
  "dict_class = PyClass ''dict'' False no_from_dict"

definition empty_numbered_dict :: "unit NumberedPage_dict" where
  "empty_numbered_dict =
     \<lparr>items_key = None, pageNumber = None, pageSize = None, totalElements = None, hasNext = None\<rparr>"

definition empty_cursor_dict :: "unit CursorPage_dict" where
  "empty_cursor_dict = \<lparr>items_key = None, responseMetadata = None\<rparr>"

section \<open>Properties\<close>

subsection \<open>A finished generator stays finished\<close>

lemma pull_np_done:
  "pull (get_page_generator_next func psz) k (NP_Done, s) = replicate k StopIteration"
  by (induction k) simp_all


subsection \<open>Floats from bounded integers\<close>

lemma binary_exponent_bounds:
  assumes "x \<noteq> 0"
  shows "2 powi (binary_exponent x) \<le> \<bar>x\<bar> \<and> \<bar>x\<bar> < 2 powi (binary_exponent x + 1)"
proof -
  obtain a b where q: "quotient_of \<bar>x\<bar> = (a, b)" by (cases "quotient_of \<bar>x\<bar>")
  then have b: "0 < b" and x: "\<bar>x\<bar> = of_int a / of_int b"
    by (auto dest: quotient_of_denom_pos quotient_of_div)
  have "0 < \<bar>x\<bar>" using assms by simp
  then have a: "0 < a" using x b by (simp add: zero_less_divide_iff)
  define la lb where "la = bitlen a" and "lb = bitlen b"
  have la: "1 \<le> la" "(2::rat) powi (la - 1) \<le> of_int a" "of_int a < (2::rat) powi la"
  proof -
    show l: "1 \<le> la" using a by (simp add: la_def bitlen_alt_def)
    have "2 ^ nat (la - 1) \<le> a" "a < 2 ^ nat la"
      using bitlen_bounds [OF a] by (simp_all add: la_def)
    then have "(of_int (2 ^ nat (la - 1)) :: rat) \<le> of_int a" "(of_int a :: rat) < of_int (2 ^ nat la)"
      by (simp_all only: of_int_le_iff of_int_less_iff)
    then show "(2::rat) powi (la - 1) \<le> of_int a" "of_int a < (2::rat) powi la"
      using l by (simp_all add: power_int_def)
  qed
  have lb: "1 \<le> lb" "(2::rat) powi (lb - 1) \<le> of_int b" "of_int b < (2::rat) powi lb"
  proof -
    show l: "1 \<le> lb" using b by (simp add: lb_def bitlen_alt_def)
    have "2 ^ nat (lb - 1) \<le> b" "b < 2 ^ nat lb"
      using bitlen_bounds [OF b] by (simp_all add: lb_def)
    then have "(of_int (2 ^ nat (lb - 1)) :: rat) \<le> of_int b" "(of_int b :: rat) < of_int (2 ^ nat lb)"
      by (simp_all only: of_int_le_iff of_int_less_iff)
    then show "(2::rat) powi (lb - 1) \<le> of_int b" "of_int b < (2::rat) powi lb"
      using l by (simp_all add: power_int_def)
  qed
  define d where "d = la - lb"
  have bpos: "(0::rat) < of_int b" using b by simp
  have low: "(2::rat) powi (d - 1) \<le> \<bar>x\<bar>"
  proof -
    have "(2::rat) powi (d - 1) = 2 powi (la - 1) / 2 powi lb"
      by (simp add: d_def power_int_diff)
    also have "\<dots> \<le> of_int a / 2 powi lb"
      using la(2) by (simp add: divide_right_mono)
    also have "\<dots> \<le> of_int a / of_int b"
      using lb(3) a bpos by (simp add: frac_le)
    finally show ?thesis by (simp add: x)
  qed
  have high: "\<bar>x\<bar> < (2::rat) powi (d + 1)"
  proof -
    have "of_int a / of_int b < (2::rat) powi la / of_int b"
      using la(3) bpos by (simp add: divide_strict_right_mono)
    also have "\<dots> \<le> 2 powi la / 2 powi (lb - 1)"
      using lb(2) by (simp add: frac_le)
    also have "\<dots> = 2 powi (la - (lb - 1))"
      by (simp add: power_int_diff)
    also have "la - (lb - 1) = d + 1"
      by (simp add: d_def)
    finally show ?thesis by (simp add: x)
  qed
  have e: "binary_exponent x = (if 2 powi d \<le> \<bar>x\<bar> then d else d - 1)"
    by (simp add: binary_exponent_def q d_def la_def lb_def Let_def)
  show ?thesis
  proof (cases "2 powi d \<le> \<bar>x\<bar>")
    case True
    then show ?thesis using e high by simp
  next
    case False
    then show ?thesis using e low by simp
  qed
qed

lemma power_int_less_exp:
  assumes "(2::rat) powi m < 2 powi n"
  shows "m < n"
proof (rule ccontr)
  assume "\<not> m < n"
  then have "n \<le> m" by simp
  then have "(2::rat) powi n \<le> 2 powi m" by (rule power_int_increasing) simp
  with assms show False by simp
qed

lemma binary_exponent_less:
  assumes "x \<noteq> 0" "\<bar>x\<bar> < 2 powi k"
  shows "binary_exponent x < k"
proof -
  have "(2::rat) powi (binary_exponent x) < 2 powi k"
    using binary_exponent_bounds [OF assms(1)] assms(2) by simp
  then show ?thesis by (rule power_int_less_exp)
qed

lemma binary_exponent_ge:
  assumes "x \<noteq> 0" "2 powi k \<le> \<bar>x\<bar>"
  shows "k \<le> binary_exponent x"
proof -
  have "(2::rat) powi k < 2 powi (binary_exponent x + 1)"
    using binary_exponent_bounds [OF assms(1)] assms(2) by simp
  then have "k < binary_exponent x + 1" by (rule power_int_less_exp)
  then show ?thesis by simp
qed

lemma round_half_even_of_int [simp]: "round_half_even (of_int k) = k"
  by (simp add: round_half_even_def)

lemma round_half_even_ge: "y - 1 / 2 \<le> of_int (round_half_even y)"
proof -
  have "of_int \<lfloor>y\<rfloor> \<le> y" "y < of_int \<lfloor>y\<rfloor> + 1" by linarith+
  then show ?thesis by (auto simp: round_half_even_def Let_def)
qed

lemma round_half_even_le_int:
  assumes "y \<le> of_int N"
  shows "round_half_even y \<le> N"
proof -
  have f: "\<lfloor>y\<rfloor> \<le> N" using assms by (simp add: floor_le_iff)
  show ?thesis
  proof (cases "y = of_int \<lfloor>y\<rfloor>")
    case True
    then have "y - of_int \<lfloor>y\<rfloor> = 0" by simp
    then have "round_half_even y = \<lfloor>y\<rfloor>"
      by (simp add: round_half_even_def Let_def)
    then show ?thesis using f by simp
  next
    case False
    then have "of_int \<lfloor>y\<rfloor> < y" by linarith
    then have "of_int \<lfloor>y\<rfloor> < (of_int N :: rat)" using assms by linarith
    then have "\<lfloor>y\<rfloor> + 1 \<le> N" by simp
    then show ?thesis using f by (auto simp: round_half_even_def Let_def)
  qed
qed

lemma nearest_double_of_int:
  assumes "\<bar>n\<bar> < 2 ^ 53"
  shows "nearest_double (of_int n) = of_int n"
proof (cases "n = 0")
  case True
  then show ?thesis by (simp add: nearest_double_def)
next
  case False
  define x :: rat where "x = of_int n"
  define e where "e = binary_exponent x"
  have x0: "x \<noteq> 0" using False by (simp add: x_def)
  have "1 \<le> \<bar>n\<bar>" using False by simp
  then have "(1::rat) \<le> of_int \<bar>n\<bar>" by (simp only: of_int_1_le_iff)
  then have "(2::rat) powi 0 \<le> \<bar>x\<bar>" by (simp add: x_def)
  then have e0: "0 \<le> e" unfolding e_def using x0 by (intro binary_exponent_ge)
  have "(of_int \<bar>n\<bar> :: rat) < of_int (2 ^ 53)" using assms by (simp only: of_int_less_iff)
  then have "\<bar>x\<bar> < (2::rat) powi 53" by (simp add: x_def)
  then have e53: "e < 53" unfolding e_def using x0 by (intro binary_exponent_less)
  define k where "k = nat (52 - e)"
  have q: "max e (- 1022) - 52 = - int k" using e0 e53 by (simp add: k_def)
  have p: "(2::rat) powi (- int k) = 1 / 2 ^ k"
    by (simp add: power_int_minus field_simps)
  have "x / 2 powi (- int k) = of_int (n * 2 ^ k)"
    by (simp add: p x_def)
  then have "round_half_even (x / 2 powi (- int k)) = n * 2 ^ k"
    by (simp only: round_half_even_of_int)
  then have "nearest_double x = of_int (n * 2 ^ k) * 2 powi (- int k)"
    using x0 q by (simp add: nearest_double_def e_def [symmetric] Let_def)
  also have "\<dots> = x" by (simp add: p x_def)
  finally show ?thesis by (simp add: x_def)
qed

lemma nearest_double_quotient:
  assumes a: "0 < a" "a < 2 ^ 53" and b: "0 < b" "b < 2 ^ 53"
  shows "rat_of_int \<lceil>rat_of_int a / rat_of_int b\<rceil> - 1 < nearest_double (rat_of_int a / rat_of_int b) \<and>
    nearest_double (rat_of_int a / rat_of_int b) \<le> rat_of_int \<lceil>rat_of_int a / rat_of_int b\<rceil>"
proof -
  define x :: rat where "x = of_int a / of_int b"
  define e where "e = binary_exponent x"
  define c where "c = \<lceil>x\<rceil>"
  have ra: "(0::rat) < of_int a" "(of_int a :: rat) < 2 ^ 53"
    using a(1) of_int_less_iff [of a "2 ^ 53", where ?'a = rat] a(2) by simp_all
  have rb: "(1::rat) \<le> of_int b" "(of_int b :: rat) < 2 ^ 53"
    using b(1) of_int_less_iff [of b "2 ^ 53", where ?'a = rat] b(2) by simp_all
  have bpos: "(0::rat) < of_int b" using rb(1) by simp
  have xpos: "0 < x" using ra(1) bpos by (simp add: x_def)
  then have x0: "x \<noteq> 0" and ax: "\<bar>x\<bar> = x" by simp_all
  have "x \<le> of_int a" using ra(1) rb(1) by (simp add: x_def field_simps mult_le_cancel_left1)
  then have "\<bar>x\<bar> < 2 powi 53" using ra(2) ax by simp
  then have e53: "e < 53" unfolding e_def using x0 by (intro binary_exponent_less)
  have "1 / 2 ^ 53 \<le> 1 / (of_int b :: rat)" using rb bpos by (simp add: frac_le)
  also have "\<dots> \<le> x" using a(1) bpos by (simp add: x_def divide_right_mono)
  finally have "(2::rat) powi (- 53) \<le> \<bar>x\<bar>" using ax by (simp add: power_int_minus field_simps)
  then have em: "- 53 \<le> e" unfolding e_def using x0 by (intro binary_exponent_ge)
  define k where "k = nat (52 - e)"
  have q: "max e (- 1022) - 52 = - int k" using em e53 by (simp add: k_def)
  define P :: rat where "P = 2 ^ k"
  have Ppos: "0 < P" by (simp add: P_def)
  have p: "(2::rat) powi (- int k) = 1 / P"
    by (simp add: power_int_minus field_simps P_def)
  define m where "m = round_half_even (x * P)"
  have nd: "nearest_double x = of_int m / P"
    using x0 q by (simp add: nearest_double_def e_def [symmetric] Let_def p m_def)
  have upper: "rat_of_int m / P \<le> rat_of_int c"
  proof -
    have "x \<le> of_int c" by (simp add: c_def)
    then have "x * P \<le> of_int c * P" using Ppos by simp
    also have "\<dots> = of_int (c * 2 ^ k)" by (simp add: P_def)
    finally have "m \<le> c * 2 ^ k" unfolding m_def by (rule round_half_even_le_int)
    then have "(of_int m :: rat) \<le> of_int (c * 2 ^ k)" by (simp only: of_int_le_iff)
    then have "of_int m \<le> of_int c * P" by (simp add: P_def)
    then show ?thesis using Ppos by (simp add: field_simps)
  qed
  have lower: "rat_of_int c - 1 < rat_of_int m / P"
  proof -
    have "x * P - 1 / 2 \<le> of_int m" unfolding m_def by (rule round_half_even_ge)
    then have "(x * P - 1 / 2) / P \<le> of_int m / P" using Ppos by (simp add: divide_right_mono)
    moreover have "(x * P - 1 / 2) / P = x - 1 / (2 * P)" using Ppos by (simp add: field_simps)
    ultimately have m1: "x - 1 / (2 * P) \<le> of_int m / P" by simp
    have "(2::rat) powi e \<le> x" using binary_exponent_bounds [OF x0] ax by (simp add: e_def)
    moreover have "(2::rat) powi e = 2 ^ 52 / P"
    proof -
      have "e = 52 - int k" using e53 by (simp add: k_def)
      then show ?thesis by (simp add: power_int_diff P_def)
    qed
    ultimately have "2 ^ 52 / P \<le> x" by simp
    then have "1 / (2 * P) \<le> x / 2 ^ 53" using Ppos by (simp add: field_simps)
    also have "x / 2 ^ 53 < 1 / rat_of_int b"
      using ra(2) bpos by (simp add: x_def field_simps)
    finally have h: "1 / (2 * P) < 1 / rat_of_int b" .
    have "rat_of_int c - 1 < x" unfolding c_def by linarith
    then have "(rat_of_int c - 1) * rat_of_int b < rat_of_int a"
      using bpos by (simp add: x_def pos_less_divide_eq)
    then have "(of_int ((c - 1) * b) :: rat) < of_int a" by simp
    then have "(c - 1) * b < a" by (simp only: of_int_less_iff)
    then have "(c - 1) * b + 1 \<le> a" by simp
    then have "(of_int ((c - 1) * b + 1) :: rat) \<le> of_int a" by (simp only: of_int_le_iff)
    then have "(of_int c - 1) * of_int b + 1 \<le> (of_int a :: rat)" by simp
    then have "((rat_of_int c - 1) * rat_of_int b + 1) / rat_of_int b \<le> x"
      using bpos by (simp add: x_def divide_right_mono)
    moreover have "((rat_of_int c - 1) * rat_of_int b + 1) / rat_of_int b = rat_of_int c - 1 + 1 / rat_of_int b"
      using bpos by (simp add: field_simps)
    ultimately have "rat_of_int c - 1 + 1 / rat_of_int b \<le> x" by simp
    with h m1 show ?thesis by linarith
  qed
  from lower upper show ?thesis by (simp add: nd x_def [symmetric] c_def [symmetric])
qed

lemma py_float_small:
  assumes "\<bar>n\<bar> < 2 ^ 53"
  shows "py_float n = Inr (of_int n)"
proof -
  have "rat_of_int \<bar>n\<bar> < of_int (2 ^ 53)" using assms by (simp only: of_int_less_iff)
  then have "\<bar>rat_of_int n\<bar> < 2 ^ 53" by simp
  moreover have "(2::rat) ^ 53 \<le> 2 ^ 1024" by (rule power_increasing) simp_all
  ultimately have "\<not> 2 ^ 1024 \<le> \<bar>rat_of_int n\<bar>" by linarith
  then show ?thesis
    using nearest_double_of_int [OF assms] by (simp add: py_float_def Let_def)
qed

lemma get_total_pages_exact:
  assumes "total_elements p = Some te" "page_size p = Some ps"
    and te: "0 \<le> te" "te < 2 ^ 53" and ps: "0 < ps" "ps < 2 ^ 53"
  shows "get_total_pages p = Inr (Some \<lceil>real_of_int te / real_of_int ps\<rceil>)"
proof -
  have fte: "py_float te = Inr (of_int te)" using te by (intro py_float_small) simp
  have fps: "py_float ps = Inr (of_int ps)" using ps by (intro py_float_small) simp
  have ps0: "rat_of_int ps \<noteq> 0" using ps(1) by simp
  have c: "\<lceil>rat_of_int te / rat_of_int ps\<rceil> = \<lceil>real_of_int te / real_of_int ps\<rceil>"
    by (simp add: ceiling_divide_eq_div)
  have "\<exists>r. float_truediv (of_int te) (of_int ps) = Inr (Finite r) \<and>
      \<lceil>r\<rceil> = \<lceil>rat_of_int te / rat_of_int ps\<rceil>"
  proof (cases "te = 0")
    case True
    then show ?thesis using ps0 by (simp add: float_truediv_def nearest_double_def)
  next
    case False
    then have tpos: "0 < te" using te(1) by simp
    define x where "x = rat_of_int te / rat_of_int ps"
    define r where "r = nearest_double x"
    have b: "rat_of_int \<lceil>x\<rceil> - 1 < r" "r \<le> rat_of_int \<lceil>x\<rceil>"
      using nearest_double_quotient [OF tpos te(2) ps] by (simp_all add: x_def r_def)
    have "1 \<le> rat_of_int ps" using ps(1) by simp
    then have "x \<le> rat_of_int te" using tpos
      by (simp add: x_def field_simps mult_le_cancel_left1)
    then have "\<lceil>x\<rceil> \<le> te" by (simp add: ceiling_le_iff)
    then have "\<lceil>x\<rceil> < 2 ^ 53" using te(2) by (rule le_less_trans)
    then have "rat_of_int \<lceil>x\<rceil> < of_int (2 ^ 53)" by (simp only: of_int_less_iff)
    moreover have "rat_of_int (2 ^ 53) = 2 ^ 53" by simp
    ultimately have "rat_of_int \<lceil>x\<rceil> < 2 ^ 53" by (simp only:)
    with b(2) have "r < 2 ^ 53" by (rule le_less_trans)
    moreover have "(2::rat) ^ 53 \<le> 2 ^ 1024" by (rule power_increasing) simp_all
    ultimately have hi: "\<not> 2 ^ 1024 \<le> r" by linarith
    have "0 < x" using tpos ps(1) by (simp add: x_def)
    then have "0 < \<lceil>x\<rceil>" by (simp add: ceiling_le_iff less_ceiling_iff)
    then have "(0::rat) \<le> of_int \<lceil>x\<rceil> - 1" by simp
    then have "0 < r" using b(1) by linarith
    moreover have "(0::rat) < 2 ^ 1024" by (rule zero_less_power) simp
    ultimately have lo: "\<not> r \<le> - (2 ^ 1024)" by linarith
    have "\<lceil>r\<rceil> = \<lceil>x\<rceil>" using b by (rule ceiling_unique)
    then show ?thesis
      using ps0 hi lo by (simp add: float_truediv_def Let_def x_def [symmetric] r_def [symmetric])
  qed
  then show ?thesis
    using assms(1,2) fte fps c by (auto simp add: get_total_pages_def math_ceil_def)
qed

lemma nearest_double_eq:
  assumes "x \<noteq> 0" "2 powi k \<le> \<bar>x\<bar>" "\<bar>x\<bar> < 2 powi (k + 1)" "- 1022 \<le> k"
    and "round_half_even (x / 2 powi (k - 52)) = m"
  shows "nearest_double x = of_int m * 2 powi (k - 52)"
proof -
  have "binary_exponent x = k"
    using binary_exponent_ge [OF assms(1,2)] binary_exponent_less [OF assms(1,3)] by simp
  then show ?thesis using assms(1,4,5) by (simp add: nearest_double_def Let_def)
qed

lemma round_half_even_tie: "even f \<Longrightarrow> round_half_even (of_int f + 1 / 2) = f"
proof -
  have "\<lfloor>rat_of_int f + 1 / 2\<rfloor> = f" by linarith
  then show "even f \<Longrightarrow> round_half_even (of_int f + 1 / 2) = f"
    by (simp add: round_half_even_def Let_def)
qed

lemma nearest_double_tie: "nearest_double (2 ^ 53 + 1) = 2 ^ 53"
proof -
  have "((2::rat) ^ 53 + 1) / 2 powi (53 - 52) = of_int (2 ^ 52) + 1 / 2" by simp
  moreover have "round_half_even (of_int (2 ^ 52) + 1 / 2) = 2 ^ 52"
    by (rule round_half_even_tie) simp
  ultimately have "round_half_even (((2::rat) ^ 53 + 1) / 2 powi (53 - 52)) = 2 ^ 52"
    by (simp only:)
  then have "nearest_double (2 ^ 53 + 1) = of_int (2 ^ 52) * 2 powi (53 - 52)"
    by (intro nearest_double_eq) simp_all
  then show ?thesis by simp
qed

lemma nearest_double_power:
  assumes "52 \<le> k"
  shows "nearest_double (2 ^ k) = 2 ^ k"
proof -
  have x: "(2::rat) ^ k = 2 powi int k" by simp
  have "(2::rat) ^ k / 2 powi (int k - 52) = 2 powi 52"
    unfolding x by (simp add: power_int_diff)
  also have "\<dots> = of_int (2 ^ 52)" by simp
  finally have "round_half_even ((2::rat) ^ k / 2 powi (int k - 52)) = 2 ^ 52"
    by (simp only: round_half_even_of_int)
  then have "nearest_double (2 ^ k) = of_int (2 ^ 52) * 2 powi (int k - 52)"
    by (intro nearest_double_eq) (simp_all add: power_int_add)
  also have "\<dots> = 2 powi 52 * 2 powi (int k - 52)" by simp
  also have "\<dots> = 2 powi int k" by (simp add: power_int_add [symmetric] del: power_int_numeral)
  finally show ?thesis by simp
qed

text \<open>
  Beyond 53 bits the conversion rounds: \<open>2 ^ 53 + 1\<close> elements in pages of \<open>2 ^ 53\<close>
  are two pages, and \<^verbatim>\<open>get_total_pages\<close> returns 1. An integer of 1025 bits has no
  float.
\<close>

lemma total_pages_beyond_53_bits: "get_total_pages (NumberedPage_init None (Some 0) (Some (2 ^ 53)) (Some (2 ^ 53 + 1)) None :: unit NumberedPage) = Inr (Some 1) \<and>
   \<lceil>real_of_int (2 ^ 53 + 1) / real_of_int (2 ^ 53)\<rceil> = 2"
proof -
  have big: "\<not> (2::rat) ^ 1024 \<le> 2 ^ 53" by (simp add: not_le power_strict_increasing del: power_numeral)
  have a: "py_float (2 ^ 53 + 1) = Inr (2 ^ 53)"
    using nearest_double_tie big by (simp add: py_float_def Let_def del: power_numeral)
  have b: "py_float (2 ^ 53) = Inr (2 ^ 53)"
    using nearest_double_power [of 53] big by (simp add: py_float_def Let_def del: power_numeral)
  have "nearest_double (of_int 1) = of_int 1" by (rule nearest_double_of_int) simp
  then have c: "float_truediv (2 ^ 53) (2 ^ 53) = Inr (Finite 1)"
    by (simp add: float_truediv_def Let_def)
  have d: "\<lceil>real_of_int (2 ^ 53 + 1) / real_of_int (2 ^ 53)\<rceil> = 2"
    by (simp add: ceiling_divide_eq_div)
  have "get_total_pages (NumberedPage_init None (Some 0) (Some (2 ^ 53)) (Some (2 ^ 53 + 1)) None :: unit NumberedPage) = Inr (Some 1)"
    using a b c by (simp add: get_total_pages_def NumberedPage_init_def math_ceil_def del: power_numeral)
  from this d show ?thesis by (rule conjI)
qed

lemma py_float_overflow: "py_float (2 ^ 1024) = Inl (Exn ''OverflowError'' ''int too large to convert to float'')"
  using nearest_double_power [of 1024] by (simp add: py_float_def Let_def del: power_numeral)

subsection \<open>has\_more\_pages\<close>

text \<open>
  C9. On \<^verbatim>\<open>NumberedPage(page_number=0, page_size=None, total_elements=None, has_next=None)\<close>,
  whatever its items, \<^verbatim>\<open>has_more_pages\<close> raises nothing and returns \<^verbatim>\<open>None\<close>, a
  value whose truth value is false: no more pages.
\<close>

theorem has_more_pages_all_unset:
  "has_more_pages (NumberedPage_init its (Some 0) None None None) = Inr None \<and>
   truthy_opt None = False"
  by (simp add: has_more_pages_def get_total_pages_def NumberedPage_init_def)

text \<open>
  C2. When \<^verbatim>\<open>has_next\<close> is not \<^verbatim>\<open>None\<close>, \<^verbatim>\<open>has_more_pages\<close> returns it
  unchanged, whatever \<^verbatim>\<open>page_number\<close>, \<^verbatim>\<open>page_size\<close> and
  \<^verbatim>\<open>total_elements\<close> are. So a generator whose first fetched page says
  \<^verbatim>\<open>has_next = False\<close> yields that page and every later call of \<^verbatim>\<open>next\<close> ends
  the iteration, also when the counts of the page promise more pages.
\<close>

theorem has_next_wins:
  assumes "has_next page = Some b"
  shows "has_more_pages page = Inr (Some b) \<and>
     (b = False \<longrightarrow> func start_page psz s = (Inr page, s') \<longrightarrow>
        pull (get_page_generator_next func psz) (Suc (Suc k)) (get_page_generator start_page, s)
          = Yield page # replicate (Suc k) StopIteration)"
  using assms
  by (simp add: has_more_pages_def get_page_generator_def np_fetch_def pull_np_done)

theorem has_next_wins_witness:
  "has_next (NumberedPage_init None (Some 0) (Some 10) (Some 100) (Some False) :: unit NumberedPage)
     = Some False \<and>
   has_more_pages (NumberedPage_init None (Some 0) (Some 10) (Some 100) (Some False) :: unit NumberedPage)
     = Inr (Some False) \<and>
   (0::int) + 1 < \<lceil>real_of_int 100 / real_of_int 10\<rceil> \<and>
   pull (get_page_generator_next no_next_dataset None) 3 (get_page_generator 0, ())
     = [Yield (NumberedPage_init None (Some 0) (Some 10) (Some 100) (Some False)),
        StopIteration, StopIteration]"
  using has_next_wins [of "NumberedPage_init None (Some 0) (Some 10) (Some 100) (Some False) :: unit NumberedPage"
      False no_next_dataset 0 None "()" "()" 1]
  by (simp add: NumberedPage_init_def no_next_dataset_def numeral_3_eq_3)

subsection \<open>NumberedPage.get\_page\_generator\<close>

text \<open>
  C10. The first call of \<^verbatim>\<open>next\<close> fetches with \<^verbatim>\<open>page_number = start_page\<close>
  and, when the fetch returns a page, yields that page: no field of the page is looked at
  before the \<^verbatim>\<open>yield\<close>, and \<^verbatim>\<open>has_more_pages\<close> is only evaluated by the next
  call, on the suspended frame. So at least one page is yielded, whatever the page says.
\<close>

theorem first_page_yielded:
  assumes "func start_page psz s = (Inr page, s')"
  shows "get_page_generator_next func psz (get_page_generator start_page, s)
           = (Yield page, NP_Yielded start_page page, s') \<and>
         pull (get_page_generator_next func psz) (Suc k) (get_page_generator start_page, s)
           = Yield page # pull (get_page_generator_next func psz) k (NP_Yielded start_page page, s')"
  using assms by (simp add: get_page_generator_def np_fetch_def)

theorem first_page_yielded_witness:
  "fixed_dataset 0 10 7 None () = (Inr (NumberedPage_init None (Some 7) (Some 10) (Some 0) None), ()) \<and>
   pull (get_page_generator_next (fixed_dataset 0 10) None) 1 (get_page_generator 7, ())
     = [Yield (NumberedPage_init None (Some 7) (Some 10) (Some 0) None)]"
  using first_page_yielded [of "fixed_dataset 0 10" 7 None "()"
      "NumberedPage_init None (Some 7) (Some 10) (Some 0) None" "()" 0]
  by (simp add: fixed_dataset_def)

lemma has_more_pages_counts:
  assumes "page_number p = Some n" "page_size p = Some ps" "total_elements p = Some te"
    "has_next p = None" "0 \<le> te" "te < 2 ^ 53" "0 < ps" "ps < 2 ^ 53"
  shows "has_more_pages p = Inr (Some (n + 1 < \<lceil>real_of_int te / real_of_int ps\<rceil>))"
  using assms get_total_pages_exact [of p te ps] by (simp add: has_more_pages_def)

lemma pull_fixed_dataset:
  assumes fixed: "\<forall>n q s. \<exists>p s'. func n q s = (Inr p, s') \<and> page_number p = Some n \<and>
      page_size p = Some ps \<and> total_elements p = Some te \<and> has_next p = None"
    and te: "0 \<le> te" "te < 2 ^ 53" and ps: "0 < ps" "ps < 2 ^ 53"
  shows "page_number p = Some n \<Longrightarrow> page_size p = Some ps \<Longrightarrow> total_elements p = Some te \<Longrightarrow>
    has_next p = None \<Longrightarrow> k = nat (\<lceil>real_of_int te / real_of_int ps\<rceil> - (n + 1)) \<Longrightarrow>
    \<exists>pages. length pages = k \<and>
      pull (get_page_generator_next func psz) (Suc k + j) (NP_Yielded n p, s)
        = map Yield pages @ replicate (Suc j) StopIteration \<and>
      (\<forall>i<k. page_number (pages ! i) = Some (n + 1 + int i))"
proof (induction k arbitrary: n p s)
  case 0
  then have "has_more_pages p = Inr (Some False)"
    using has_more_pages_counts [of p n ps te] te ps by simp
  then show ?case by (simp add: pull_np_done)
next
  case (Suc k)
  then have more: "has_more_pages p = Inr (Some True)"
    using has_more_pages_counts [of p n ps te] te ps by simp
  from fixed obtain p' s' where f: "func (n + 1) psz s = (Inr p', s')"
    and p': "page_number p' = Some (n + 1)" "page_size p' = Some ps"
      "total_elements p' = Some te" "has_next p' = None"
    by blast
  have "k = nat (\<lceil>real_of_int te / real_of_int ps\<rceil> - (n + 1 + 1))"
    using Suc.prems(5) by simp
  from Suc.IH [OF p' this, of s'] obtain pages where
    pages: "length pages = k"
      "pull (get_page_generator_next func psz) (Suc k + j) (NP_Yielded (n + 1) p', s')
        = map Yield pages @ replicate (Suc j) StopIteration"
      "\<forall>i<k. page_number (pages ! i) = Some (n + 1 + 1 + int i)"
    by blast
  have step: "get_page_generator_next func psz (NP_Yielded n p, s) = (Yield p', NP_Yielded (n + 1) p', s')"
    using more f by (simp add: np_fetch_def)
  have "pull (get_page_generator_next func psz) (Suc (Suc k) + j) (NP_Yielded n p, s)
      = map Yield (p' # pages) @ replicate (Suc j) StopIteration"
    using step pages(2) by simp
  moreover have "\<forall>i<Suc k. page_number ((p' # pages) ! i) = Some (n + 1 + int i)"
  proof (intro allI impI)
    fix i assume "i < Suc k"
    then show "page_number ((p' # pages) ! i) = Some (n + 1 + int i)"
      using p'(1) pages(3) by (cases i) auto
  qed
  ultimately show ?case using pages(1)
    by (intro exI [of _ "p' # pages"]) simp
qed

lemma fixed_dataset_fixed:
  "\<forall>n q s. \<exists>p s'. fixed_dataset te ps n q s = (Inr p, s') \<and> page_number p = Some n \<and>
      page_size p = Some ps \<and> total_elements p = Some te \<and> has_next p = None"
  by (simp add: fixed_dataset_def NumberedPage_init_def)

text \<open>
  C1, as the code has it. Let every fetched page carry the page number it was asked for,
  the same \<^verbatim>\<open>total_elements\<close> \<open>te\<close> with \<open>0 \<le> te < 2 ^ 53\<close> and the same
  \<^verbatim>\<open>page_size\<close> \<open>ps\<close> with \<open>0 < ps < 2 ^ 53\<close>, and no \<^verbatim>\<open>has_next\<close>. Started at
  page 0, the generator yields exactly \<open>max 1 \<lceil>te / ps\<rceil>\<close> pages, numbered from 0, and
  every later call of \<^verbatim>\<open>next\<close> ends the iteration. The first page is fetched and
  yielded before any count is known, so an empty dataset still gives one page. Below
  \<open>2 ^ 53\<close> the conversions to float are exact and the rounded quotient has the ceiling
  of the exact one.
\<close>

theorem fixed_dataset_page_count:
  assumes fixed: "\<forall>n q s. \<exists>p s'. func n q s = (Inr p, s') \<and> page_number p = Some n \<and>
      page_size p = Some ps \<and> total_elements p = Some te \<and> has_next p = None"
    and te: "0 \<le> te" "te < 2 ^ 53" and ps: "0 < ps" "ps < 2 ^ 53"
  shows "\<exists>pages. length pages = nat (max 1 \<lceil>real_of_int te / real_of_int ps\<rceil>) \<and>
      pull (get_page_generator_next func psz) (Suc (length pages) + j) (get_page_generator 0, s)
        = map Yield pages @ replicate (Suc j) StopIteration \<and>
      (\<forall>i<length pages. page_number (pages ! i) = Some (int i))"
proof -
  from fixed obtain p s' where f: "func 0 psz s = (Inr p, s')"
    and p: "page_number p = Some 0" "page_size p = Some ps"
      "total_elements p = Some te" "has_next p = None"
    by blast
  define k where "k = nat (\<lceil>real_of_int te / real_of_int ps\<rceil> - (0 + 1))"
  from pull_fixed_dataset [OF fixed te ps p k_def, of psz j s'] obtain pages where
    pages: "length pages = k"
      "pull (get_page_generator_next func psz) (Suc k + j) (NP_Yielded 0 p, s')
        = map Yield pages @ replicate (Suc j) StopIteration"
      "\<forall>i<k. page_number (pages ! i) = Some (0 + 1 + int i)"
    by blast
  have "Suc (nat (T - (0 + 1))) = nat (max 1 T)" for T :: int
    by arith
  then have len: "length (p # pages) = nat (max 1 \<lceil>real_of_int te / real_of_int ps\<rceil>)"
    using pages(1) by (simp add: k_def)
  have run: "pull (get_page_generator_next func psz) (Suc (length (p # pages)) + j) (get_page_generator 0, s)
      = map Yield (p # pages) @ replicate (Suc j) StopIteration"
    using f pages(1,2) by (simp add: get_page_generator_def np_fetch_def)
  have nums: "\<forall>i<length (p # pages). page_number ((p # pages) ! i) = Some (int i)"
  proof (intro allI impI)
    fix i assume "i < length (p # pages)"
    then show "page_number ((p # pages) ! i) = Some (int i)"
      using p(1) pages(1,3) by (cases i) auto
  qed
  from len run nums show ?thesis by blast
qed

text \<open>Five elements in pages of two: three pages, then the end.\<close>

theorem fixed_dataset_page_count_witness:
  "(\<forall>n q s. \<exists>p s'. fixed_dataset 5 2 n q s = (Inr p, s') \<and> page_number p = Some n \<and>
      page_size p = Some 2 \<and> total_elements p = Some 5 \<and> has_next p = None) \<and>
   (0::int) \<le> 5 \<and> (5::int) < 2 ^ 53 \<and> (0::int) < 2 \<and> (2::int) < 2 ^ 53 \<and>
   (\<exists>pages. length pages = 3 \<and>
      pull (get_page_generator_next (fixed_dataset 5 2) None) 5 (get_page_generator 0, ())
        = map Yield pages @ [StopIteration, StopIteration])"
proof -
  have h: "\<forall>n q s. \<exists>p s'. fixed_dataset 5 2 n q s = (Inr p, s') \<and> page_number p = Some n \<and>
      page_size p = Some 2 \<and> total_elements p = Some 5 \<and> has_next p = None"
    by (rule fixed_dataset_fixed)
  have c: "nat (max 1 \<lceil>real_of_int 5 / real_of_int 2\<rceil>) = 3" by simp
  have bounds: "(0::int) \<le> 5" "(5::int) < 2 ^ 53" "(0::int) < 2" "(2::int) < 2 ^ 53" by simp_all
  from fixed_dataset_page_count [OF h bounds, of None 1 "()"] obtain pages where
    a: "length pages = nat (max 1 \<lceil>real_of_int 5 / real_of_int 2\<rceil>)" and
    b: "pull (get_page_generator_next (fixed_dataset 5 2) None) (Suc (length pages) + 1) (get_page_generator 0, ())
        = map Yield pages @ replicate (Suc 1) StopIteration"
    by blast
  have l: "length pages = 3" using a c by simp
  have n: "Suc (length pages) + 1 = 5" using l by simp
  have r: "replicate (Suc 1) StopIteration = [StopIteration, StopIteration :: unit NumberedPage event]"
    by simp
  have "length pages = 3 \<and>
      pull (get_page_generator_next (fixed_dataset 5 2) None) 5 (get_page_generator 0, ())
        = map Yield pages @ [StopIteration, StopIteration]"
    using l b unfolding n r by blast
  with h bounds show ?thesis by blast
qed

text \<open>
  With no element at all, \<open>\<lceil>0 / 10\<rceil> = 0\<close>, and yet one page is yielded before the
  iteration ends.
\<close>

theorem empty_dataset_one_page:
  "pull (get_page_generator_next (fixed_dataset 0 10) None) 2 (get_page_generator 0, ())
     = [Yield (NumberedPage_init None (Some 0) (Some 10) (Some 0) None), StopIteration] \<and>
   \<lceil>real_of_int 0 / real_of_int 10\<rceil> = 0"
proof -
  have "get_total_pages (NumberedPage_init None (Some 0) (Some 10) (Some 0) None :: unit NumberedPage)
      = Inr (Some \<lceil>real_of_int 0 / real_of_int 10\<rceil>)"
    by (rule get_total_pages_exact) (simp_all add: NumberedPage_init_def)
  then have "has_more_pages (NumberedPage_init None (Some 0) (Some 10) (Some 0) None :: unit NumberedPage)
      = Inr (Some False)"
    by (simp add: has_more_pages_def NumberedPage_init_def)
  then show ?thesis
    by (simp add: numeral_2_eq_2 get_page_generator_def np_fetch_def fixed_dataset_def)
qed

subsection \<open>CursorPage.get\_cursor\_based\_page\_generator\<close>






text \<open>
  C3, as the code has it. After a fetch with cursor \<open>c0\<close> has returned a page from which
  \<^verbatim>\<open>get_next_cursor\<close> extracts \<open>c\<close>, the page is yielded and the frame holds \<open>c\<close>, not
  \<open>c0\<close>. The next call of \<^verbatim>\<open>next\<close> ends the iteration exactly when \<open>c\<close> is false
  as a Python truth value (\<^verbatim>\<open>finished = not cursor\<close>); when \<open>c\<close> is true it goes on
  as a generator started with \<open>c\<close> does, by a fetch with \<open>c\<close>. For a cursor that is a
  string, the test is emptiness.
\<close>

theorem cursor_continuation_is_truthiness:
  assumes "get_page c0 s = (Inr page, s')" "get_next_cursor td page = Inr c"
  shows "get_cursor_based_page_generator_next td get_page (get_cursor_based_page_generator c0, s)
           = (Yield page, CP_Running c (\<not> truthy c), s') \<and>
         ((fst (get_cursor_based_page_generator_next td get_page (CP_Running c (\<not> truthy c), s'))
            = StopIteration) \<longleftrightarrow> \<not> truthy c) \<and>
         (truthy c \<longrightarrow>
            get_cursor_based_page_generator_next td get_page (CP_Running c (\<not> truthy c), s')
              = get_cursor_based_page_generator_next td get_page (get_cursor_based_page_generator c, s')) \<and>
         (\<forall>str. c = JStr str \<longrightarrow>
            ((fst (get_cursor_based_page_generator_next td get_page (CP_Running c (\<not> truthy c), s'))
               = StopIteration) \<longleftrightarrow> str = []))"
  using assms
  by (auto simp add: get_cursor_based_page_generator_def split: prod.splits sum.splits)

theorem cursor_continuation_is_truthiness_witness:
  "constant_cursor (Model ()) (JStr ''abc'') JNull ()
     = (Inr (cursor_page_with [Model ()] (JStr ''abc'')), ()) \<and>
   get_next_cursor unit_to_dict (cursor_page_with [Model ()] (JStr ''abc'')) = Inr (JStr ''abc'') \<and>
   get_cursor_based_page_generator_next unit_to_dict (constant_cursor (Model ()) (JStr ''abc''))
       (get_cursor_based_page_generator JNull, ())
     = (Yield (cursor_page_with [Model ()] (JStr ''abc'')), CP_Running (JStr ''abc'') False, ())"
  using cursor_continuation_is_truthiness [of "constant_cursor (Model ()) (JStr ''abc'')" JNull "()"
      "cursor_page_with [Model ()] (JStr ''abc'')" "()" unit_to_dict "JStr ''abc''"]
  by (simp add: constant_cursor_def get_next_cursor_def CursorPage_to_dict_def call_to_dict_def
      cursor_page_with_def CursorPage_init_def Page_init_def)

text \<open>
  A page whose \<^verbatim>\<open>nextCursor\<close> is the number 0: the extracted cursor is neither the
  empty string nor absent, and the iteration ends after this page all the same.
\<close>

theorem zero_cursor_stops:
  "get_next_cursor unit_to_dict (cursor_page_with [Model ()] (JInt 0)) = Inr (JInt 0) \<and>
   JInt 0 \<noteq> JStr [] \<and> JInt 0 \<noteq> JNull \<and>
   pull (get_cursor_based_page_generator_next unit_to_dict (constant_cursor (Model ()) (JInt 0))) 2
       (get_cursor_based_page_generator JNull, ())
     = [Yield (cursor_page_with [Model ()] (JInt 0)), StopIteration]"
  by (simp add: numeral_2_eq_2 get_cursor_based_page_generator_def constant_cursor_def
      get_next_cursor_def CursorPage_to_dict_def call_to_dict_def cursor_page_with_def
      CursorPage_init_def Page_init_def)

subsection \<open>from\_dict and to\_dict\<close>

text \<open>
  C5, as the code has it. For every page dictionary, a \<^verbatim>\<open>content_type\<close> that is a
  class but not a subclass of \<^verbatim>\<open>ModelBase\<close> makes \<^verbatim>\<open>NumberedPage.from_dict\<close>
  and \<^verbatim>\<open>CursorPage.from_dict\<close> raise, and no page is returned. The exception is a
  \<^verbatim>\<open>ValueError\<close> with one fixed message, the same for every such class.
\<close>

theorem content_type_rejected:
  assumes "\<not> subclass_of_ModelBase c"
  shows "NumberedPage_from_dict npage (Some c) = Inl content_type_error \<and>
         CursorPage_from_dict cpage (Some c) = Inl content_type_error \<and>
         content_type_error = Exn ''ValueError'' '''content_type' must be a subclass of ModelBase.''"
  using assms
  by (simp add: NumberedPage_from_dict_def CursorPage_from_dict_def content_type_error_def Let_def)

theorem content_type_rejected_witness:
  "\<not> subclass_of_ModelBase dict_class \<and>
   NumberedPage_from_dict empty_numbered_dict (Some dict_class) = Inl content_type_error \<and>
   CursorPage_from_dict empty_cursor_dict (Some dict_class) = Inl content_type_error"
  using content_type_rejected [of dict_class empty_numbered_dict empty_cursor_dict]
  by (simp add: dict_class_def)

text \<open>
  With \<^verbatim>\<open>content_type = dict\<close>: the exception is a \<^verbatim>\<open>ValueError\<close>, not a
  \<^verbatim>\<open>ConfigurationError\<close>, and its message does not depend on the class.
\<close>

theorem dict_class_ValueError:
  "NumberedPage_from_dict empty_numbered_dict (Some dict_class)
     = Inl (Exn ''ValueError'' '''content_type' must be a subclass of ModelBase.'') \<and>
   CursorPage_from_dict empty_cursor_dict (Some dict_class)
     = Inl (Exn ''ValueError'' '''content_type' must be a subclass of ModelBase.'') \<and>
   ''ValueError'' \<noteq> ''ConfigurationError'' \<and>
   cls_name dict_class = ''dict''"
  by (simp add: NumberedPage_from_dict_def CursorPage_from_dict_def content_type_error_def Let_def
      dict_class_def)





subsection \<open>The window policy of the reports generator\<close>

lemma last_updated_of:
  "all_timestamped xs \<Longrightarrow> xs \<noteq> [] \<Longrightarrow>
   \<exists>r. last xs = Model r \<and> updated r = Some (last (updated_of xs)) \<and> updated_of xs \<noteq> []"
proof (induction xs rule: updated_of.induct)
  case 1
  then show ?case by simp
next
  case (2 j xs)
  then show ?case by simp
next
  case (3 r xs)
  then show ?case
    by (cases xs) (auto split: option.splits)
qed

lemma last_nonincreasing:
  "sorted_wrt (\<ge>) (us :: int list) \<Longrightarrow> us \<noteq> [] \<Longrightarrow> last us = Min (set us)"
proof (induction us)
  case Nil
  then show ?case by simp
next
  case (Cons u us)
  show ?case
  proof (cases "us = []")
    case True
    then show ?thesis by simp
  next
    case False
    with Cons have "last us = Min (set us)" by simp
    moreover have "Min (set us) \<le> u" using Cons.prems(1) False by (simp add: Min_le_iff)
    moreover have "Min (set (u # us)) = min u (Min (set us))" using False by simp
    ultimately show ?thesis using False by (simp add: min_absorb2)
  qed
qed

lemma get_next_to_time_last:
  assumes "items result \<noteq> []" "all_timestamped (items result)"
  shows "get_next_to_time result to_time = Inr (last (updated_of (items result)) - 1)"
proof -
  from last_updated_of [OF assms(2,1)] obtain r where
    "last (items result) = Model r" "updated r = Some (last (updated_of (items result)))"
    by blast
  then show ?thesis using assms(1) by (simp add: get_next_to_time_def)
qed

text \<open>
  On a non-empty page of reports that all carry a timestamp, the next
  \<^verbatim>\<open>to_time\<close> is one millisecond before the timestamp of the last report of the
  page; that is the earliest timestamp of the page less one when the page lists its
  reports from the newest to the oldest.
\<close>

lemma get_next_to_time_newest_first:
  assumes "items result \<noteq> []" "all_timestamped (items result)"
    and "sorted_wrt (\<ge>) (updated_of (items result))"
  shows "get_next_to_time result to_time = Inr (Min (set (updated_of (items result))) - 1)"
proof -
  from last_updated_of [OF assms(2,1)] have "updated_of (items result) \<noteq> []" by blast
  then show ?thesis
    using get_next_to_time_last [OF assms(1,2)] last_nonincreasing [OF assms(3)] by simp
qed

text \<open>
  Each advance lowers the upper bound of the window: on a page of reports whose
  timestamps are all below \<^verbatim>\<open>to_time\<close>, the next \<^verbatim>\<open>to_time\<close> is strictly below
  it, and it is \<^verbatim>\<open>to_time\<close> less one day on an empty page.
\<close>

lemma get_next_to_time_less:
  assumes "all_timestamped (items result)"
    and "\<forall>u \<in> set (updated_of (items result)). u < to_time"
  shows "\<exists>t. get_next_to_time result to_time = Inr t \<and> t < to_time \<and>
      (items result = [] \<longrightarrow> t = to_time - DAY)"
proof (cases "items result = []")
  case True
  then show ?thesis by (simp add: get_next_to_time_def DAY_def)
next
  case False
  from last_updated_of [OF assms(1) False] have ne: "updated_of (items result) \<noteq> []" by blast
  have t: "get_next_to_time result to_time = Inr (last (updated_of (items result)) - 1)"
    using False assms(1) by (rule get_next_to_time_last)
  have "last (updated_of (items result)) < to_time"
    using assms(2) ne last_in_set by blast
  then show ?thesis using t False by auto
qed

text \<open>
  C6. The claim, like the docstring of \<^verbatim>\<open>get_next_to_time\<close> (``the timestamp of the
  earliest report in the result set''), asks for one millisecond before the earliest
  \<^verbatim>\<open>updated\<close> of the page. The code takes \<^verbatim>\<open>result.items[-1]\<close>: on the page that
  lists the report updated at 4000 before the report updated at 4500 it returns 4499,
  where the earliest timestamp less one is 3999.
\<close>

theorem older_first_page_not_earliest:
  "items older_first_page \<noteq> [] \<and>
   get_next_to_time older_first_page 5000 = Inr 4499 \<and>
   Min (set (updated_of (items older_first_page))) - 1 = 3999"
  by (simp add: get_next_to_time_def older_first_page_def NumberedPage_init_def Page_init_def
      Report_updated_def)

text \<open>
  C4. The claim asks that no timestamp can be yielded twice. On the same page, fetched
  with \<^verbatim>\<open>to_time = 5000\<close> (every timestamp of the page is below it), the code returns
  4499: strictly below 5000, but above the timestamp 4000 of the page, which is
  therefore inside the next window as well.
\<close>

theorem older_first_page_overlap:
  "all_timestamped (items older_first_page) \<and>
   list_all (\<lambda>u. u < 5000) (updated_of (items older_first_page)) \<and>
   get_next_to_time older_first_page 5000 = Inr 4499 \<and>
   hd (updated_of (items older_first_page)) = 4000 \<and> (4000::int) < 4499"
  by (simp add: get_next_to_time_def older_first_page_def NumberedPage_init_def Page_init_def
      Report_updated_def)

end
